theory Spec2Isabelle
  imports Main "HOL-Library.Word"
begin

section \<open>JavaScript strings\<close>

text \<open>
  A JavaScript string is a sequence of UTF-16 code units. File paths, event names, source
  lines and file contents are all values of this type. \<open>js\<close> embeds an ASCII literal.
\<close>

type_synonym jschar = "16 word"
type_synonym jsstring = "jschar list"

definition js :: "string \<Rightarrow> jsstring" where
  "js s = map (\<lambda>c. of_nat (of_char c)) s"

text \<open>
  \<open>String.prototype.trim\<close> strips the code units of the ECMAScript productions
  WhiteSpace (TAB, VT, FF, SP, NBSP, ZWNBSP and the Unicode space separators) and
  LineTerminator (LF, CR, LS, PS) from both ends.
\<close>

definition isWhiteSpace :: "jschar \<Rightarrow> bool" where
  "isWhiteSpace c \<longleftrightarrow>
     List.member
       [0x0009, 0x000A, 0x000B, 0x000C, 0x000D, 0x0020, 0x00A0, 0x1680,
        0x2000, 0x2001, 0x2002, 0x2003, 0x2004, 0x2005, 0x2006, 0x2007,
        0x2008, 0x2009, 0x200A, 0x2028, 0x2029, 0x202F, 0x205F, 0x3000, 0xFEFF] c"

definition trim :: "jsstring \<Rightarrow> jsstring" where
  "trim s = rev (dropWhile isWhiteSpace (rev (dropWhile isWhiteSpace s)))"

text \<open>\<open>s.indexOf(c)\<close> for a one-character search string: the first position, or -1.\<close>

fun indexOf :: "jsstring \<Rightarrow> jschar \<Rightarrow> int" where
  "indexOf [] c = - 1"
| "indexOf (x # xs) c =
     (if x = c then 0 else (let r = indexOf xs c in if r < 0 then - 1 else r + 1))"

text \<open>
  \<open>s.split(sep)\<close> for a one-character separator: the pieces between the separators, so
  the result is never empty (the empty string gives one empty piece).
\<close>

fun split_on :: "jschar \<Rightarrow> jsstring \<Rightarrow> jsstring list" where
  "split_on sep [] = [[]]"
| "split_on sep (x # xs) =
     (if x = sep then [] # split_on sep xs
      else (case split_on sep xs of
              [] \<Rightarrow> [[x]]
            | piece # pieces \<Rightarrow> (x # piece) # pieces))"

definition newline :: jschar where
  "newline = 0x000A"

definition plus_sign :: jschar where
  "plus_sign = 0x002B"

section \<open>The runtime's data\<close>

text \<open>
  \<open>interface VanessaBreakpoint { id: number; line: number; verified: boolean }\<close>.
  The field \<open>id\<close> is named \<open>id_bp\<close> here. Numbers are modelled as unbounded integers.
\<close>

record VanessaBreakpoint =
  id_bp :: int
  line :: int
  verified :: bool

text \<open>
  A JavaScript \<open>Map\<close> keeps its keys in insertion order: \<open>set\<close> on a present key
  replaces the value in place, on an absent key it appends; after \<open>delete\<close> the key is
  absent.
\<close>

fun Map_get :: "('k \<times> 'v) list \<Rightarrow> 'k \<Rightarrow> 'v option" where
  "Map_get [] k = None"
| "Map_get ((k', v') # m) k = (if k' = k then Some v' else Map_get m k)"

fun Map_set :: "('k \<times> 'v) list \<Rightarrow> 'k \<Rightarrow> 'v \<Rightarrow> ('k \<times> 'v) list" where
  "Map_set [] k v = [(k, v)]"
| "Map_set ((k', v') # m) k v =
     (if k' = k then (k, v) # m else (k', v') # Map_set m k v)"

fun Map_delete :: "('k \<times> 'v) list \<Rightarrow> 'k \<Rightarrow> ('k \<times> 'v) list" where
  "Map_delete [] k = []"
| "Map_delete ((k', v') # m) k =
     (if k' = k then Map_delete m k else (k', v') # Map_delete m k)"

text \<open>The value that \<open>JSON.stringify\<close> serialises, as a JSON document.\<close>

datatype json =
    JNull
  | JBool bool
  | JNumber int
  | JString jsstring
  | JArray "json list"
  | JObject "(jsstring \<times> json) list"

text \<open>Exceptions thrown by the platform: a failed file read, a property access on
  \<open>undefined\<close>, and \<open>JSON.parse\<close> on text that is not JSON.\<close>

datatype error = ENOENT | TypeError | SyntaxError

text \<open>Requests to the editor: \<open>vscode.workspace.openTextDocument\<close>,
  \<open>vscode.window.showTextDocument\<close> and \<open>vscode.commands.executeCommand\<close>.\<close>

datatype ui_request =
    OpenTextDocument jsstring
  | ShowTextDocument jsstring
  | ExecuteCommand jsstring

text \<open>
  The decoded status record \<open>{file: string, line: number, status: string, done?: boolean}\<close>
  (the fields carry the prefix \<open>info_\<close>).
\<close>

record debugInfo =
  info_file :: jsstring
  info_line :: int
  info_status :: jsstring
  info_done :: "bool option"

text \<open>
  The private fields of \<open>VanessaRuntime\<close> (the first five; \<open>undefined\<close> is \<open>None\<close>) and
  the part of the environment the class touches: the readable files by path, the content
  of the breakpoints file (the document handed to \<open>JSON.stringify\<close>; its path is taken
  to differ from every source path), whether that file can be written (its folder
  \<open>.vscode\<close> exists), the content of the status file, the file name of the active text
  editor, the requests sent to the editor, and the events scheduled by \<open>sendEvent\<close> in the
  order of scheduling.
\<close>

record runtime =
  sourceFile :: "jsstring option"
  sourceLines :: "jsstring list option"
  currentLine :: int
  breakPoints :: "(jsstring \<times> VanessaBreakpoint list) list"
  breakpointId :: int
  files :: "jsstring \<Rightarrow> jsstring option"
  breaksFile :: "json option"
  breaksWritable :: bool
  statusFile :: "jsstring option"
  activeTextEditor :: "jsstring option"
  requests :: "ui_request list"
  emitted :: "jsstring list"

text \<open>The state after \<open>new VanessaRuntime()\<close> in a given environment.\<close>

definition new_runtime ::
  "(jsstring \<Rightarrow> jsstring option) \<Rightarrow> jsstring option \<Rightarrow> bool \<Rightarrow> runtime" where
  "new_runtime fs editor writable =
     \<lparr> sourceFile = None, sourceLines = None, currentLine = 0, breakPoints = [],
       breakpointId = 1, files = fs, breaksFile = None, breaksWritable = writable,
       statusFile = None, activeTextEditor = editor, requests = [], emitted = [] \<rparr>"

text \<open>A call returns a value or throws; the state it leaves behind is kept either way.\<close>

type_synonym 'a outcome = "(error + 'a) \<times> runtime"

section \<open>Private methods\<close>

definition sendEvent :: "jsstring \<Rightarrow> runtime \<Rightarrow> runtime" where
  "sendEvent event s = s\<lparr>emitted := emitted s @ [event]\<rparr>"

text \<open>
  \<open>loadSource\<close> assigns \<open>_sourceFile\<close> before it reads the file, so a failed read
  leaves the new name with the old lines.
\<close>

definition loadSource :: "jsstring \<Rightarrow> runtime \<Rightarrow> unit outcome" where
  "loadSource file s =
     (if sourceFile s \<noteq> Some file then
        (let s1 = s\<lparr>sourceFile := Some file\<rparr> in
         case files s1 file of
           None \<Rightarrow> (Inl ENOENT, s1)
         | Some content \<Rightarrow>
             (Inr (), s1\<lparr>sourceLines := Some (split_on newline content)\<rparr>))
      else (Inr (), s))"

text \<open>
  The body of the \<open>forEach\<close> callback of \<open>verifyBreakpoints\<close>. Reading
  \<open>_sourceLines.length\<close> while \<open>_sourceLines\<close> is undefined throws, and so does
  \<open>.trim()\<close> on the undefined element at a negative index.
\<close>

definition verifyBreakpoint ::
  "jsstring list option \<Rightarrow> VanessaBreakpoint \<Rightarrow> error + VanessaBreakpoint" where
  "verifyBreakpoint lines bp =
     (if \<not> verified bp then
        (case lines of
           None \<Rightarrow> Inl TypeError
         | Some ls \<Rightarrow>
             if line bp < int (length ls) then
               (if line bp < 0 then Inl TypeError
                else
                  (let srcLine = trim (ls ! nat (line bp)) in
                   if length srcLine = 0 \<or> indexOf srcLine plus_sign = 0
                   then Inr (bp\<lparr>line := line bp + 1\<rparr>)
                   else Inr bp))
             else Inr bp)
      else Inr bp)"

text \<open>
  \<open>bps.forEach\<close>: the breakpoints are visited in order and updated in place; an
  exception stops the iteration and leaves the later ones as they were.
\<close>

fun forEach_verify ::
  "jsstring list option \<Rightarrow> VanessaBreakpoint list \<Rightarrow> error option \<times> VanessaBreakpoint list" where
  "forEach_verify lines [] = (None, [])"
| "forEach_verify lines (bp # bps) =
     (case verifyBreakpoint lines bp of
        Inl e \<Rightarrow> (Some e, bp # bps)
      | Inr bp' \<Rightarrow>
          (case forEach_verify lines bps of (r, bps') \<Rightarrow> (r, bp' # bps')))"

definition verifyBreakpoints :: "jsstring \<Rightarrow> runtime \<Rightarrow> unit outcome" where
  "verifyBreakpoints path s =
     (case Map_get (breakPoints s) path of
        None \<Rightarrow> (Inr (), s)
      | Some bps \<Rightarrow>
          (case loadSource path s of
             (Inl e, s1) \<Rightarrow> (Inl e, s1)
           | (Inr u, s1) \<Rightarrow>
               (case forEach_verify (sourceLines s1) bps of
                  (r, bps') \<Rightarrow>
                    ((case r of Some e \<Rightarrow> Inl e | None \<Rightarrow> Inr ()),
                     s1\<lparr>breakPoints := Map_set (breakPoints s1) path bps'\<rparr>))))"

text \<open>
  \<open>saveBreakpointsToFile\<close> collects one \<open>{file, breakpoints}\<close> object per key of the map,
  in the map's order, and writes the serialised array. A breakpoint object was created
  by the literal \<open>{ verified: false, line, id }\<close>, which fixes the order of its properties.
  \<open>fs.writeFileSync\<close> throws when the file cannot be written, and leaves it as it was.
\<close>

definition breakpoint_json :: "VanessaBreakpoint \<Rightarrow> json" where
  "breakpoint_json bp =
     JObject [(js ''verified'', JBool (verified bp)),
              (js ''line'', JNumber (line bp)),
              (js ''id'', JNumber (id_bp bp))]"

definition breakPointsInfo :: "(jsstring \<times> VanessaBreakpoint list) list \<Rightarrow> json" where
  "breakPointsInfo m =
     JArray (map (\<lambda>(k, v). JObject [(js ''file'', JString k),
                                      (js ''breakpoints'', JArray (map breakpoint_json v))]) m)"

definition saveBreakpointsToFile :: "jsstring \<Rightarrow> runtime \<Rightarrow> unit outcome" where
  "saveBreakpointsToFile path s =
     (if breaksWritable s
      then (Inr (), s\<lparr>breaksFile := Some (breakPointsInfo (breakPoints s))\<rparr>)
      else (Inl ENOENT, s))"

text \<open>
  A save followed by \<open>return v\<close>: the value is returned only when the save has not thrown.
\<close>

definition save_then_return :: "jsstring \<Rightarrow> 'a \<Rightarrow> runtime \<Rightarrow> 'a outcome" where
  "save_then_return path v s =
     (case saveBreakpointsToFile path s of
        (Inl e, s') \<Rightarrow> (Inl e, s')
      | (Inr u, s') \<Rightarrow> (Inr v, s'))"

text \<open>
  \<open>fireEventsForLine\<close>: the test \<open>stepEvent && ...\<close> is a test for truthiness, so it
  fails for \<open>undefined\<close> and for the empty string.
\<close>

definition fireEventsForLine :: "int \<Rightarrow> jsstring option \<Rightarrow> runtime \<Rightarrow> bool \<times> runtime" where
  "fireEventsForLine ln stepEvent s =
     (case stepEvent of
        None \<Rightarrow> (False, s)
      | Some event \<Rightarrow>
          if event \<noteq> [] \<and> currentLine s \<le> ln then (True, sendEvent event s)
          else (False, s))"

text \<open>
  The \<open>for\<close> loop of \<open>run\<close>, from \<open>ln\<close> on, for a source of \<open>n\<close> lines
  (\<open>_sourceLines\<close> does not change while the loop runs).
\<close>

function run_loop :: "jsstring option \<Rightarrow> int \<Rightarrow> int \<Rightarrow> runtime \<Rightarrow> runtime" where
  "run_loop stepEvent n ln s =
     (if ln < n then
        (case fireEventsForLine ln stepEvent s of
           (True, s1) \<Rightarrow> s1\<lparr>currentLine := ln\<rparr>
         | (False, s1) \<Rightarrow> run_loop stepEvent n (ln + 1) s1)
      else sendEvent (js ''end'') s)"
  by pat_completeness auto
termination
  by (relation "measure (\<lambda>(stepEvent, n, ln, s). nat (n - ln))") auto

declare run_loop.simps [simp del]

definition run :: "jsstring option \<Rightarrow> runtime \<Rightarrow> unit outcome" where
  "run stepEvent s =
     (case sourceLines s of
        None \<Rightarrow> (Inl TypeError, s)
      | Some ls \<Rightarrow> (Inr (), run_loop stepEvent (int (length ls)) (currentLine s + 1) s))"

section \<open>Public methods\<close>

definition continue :: "bool \<Rightarrow> runtime \<Rightarrow> unit outcome" where
  "continue reverse s = run None s"

definition step :: "bool \<Rightarrow> jsstring \<Rightarrow> runtime \<Rightarrow> unit outcome" where
  "step reverse event s = run (Some event) s"

text \<open>
  \<open>start\<close> verifies the breakpoints of \<open>this._sourceFile\<close>; \<open>Map.get(undefined)\<close> finds
  nothing.
\<close>

definition start :: "jsstring \<Rightarrow> bool \<Rightarrow> runtime \<Rightarrow> unit outcome" where
  "start featureFilePath stopOnEntry s =
     (case loadSource featureFilePath s of
        (Inl e, s1) \<Rightarrow> (Inl e, s1)
      | (Inr u, s1) \<Rightarrow>
          (let s2 = s1\<lparr>currentLine := - 1\<rparr> in
           case (case sourceFile s2 of
                   None \<Rightarrow> (Inr (), s2)
                 | Some f \<Rightarrow> verifyBreakpoints f s2) of
             (Inl e, s3) \<Rightarrow> (Inl e, s3)
           | (Inr u, s3) \<Rightarrow>
               if stopOnEntry then step False (js ''stopOnEntry'') s3
               else continue False s3))"

text \<open>
  \<open>setBreakPoint\<close> pushes the new object onto the array of the path and returns that
  same object after the verification pass; an exception of the pass leaves it pushed
  and nothing saved, an exception of the save leaves it pushed and verified once.
\<close>

definition setBreakPoint :: "jsstring \<Rightarrow> int \<Rightarrow> runtime \<Rightarrow> VanessaBreakpoint outcome" where
  "setBreakPoint path ln s =
     (let s1 = s\<lparr>breakpointId := breakpointId s + 1\<rparr>;
          bp = \<lparr>id_bp = breakpointId s1, line = ln, verified = False\<rparr>;
          bps = (case Map_get (breakPoints s1) path of None \<Rightarrow> [] | Some a \<Rightarrow> a);
          s2 = s1\<lparr>breakPoints := Map_set (breakPoints s1) path (bps @ [bp])\<rparr>
      in case verifyBreakpoints path s2 of
           (Inl e, s3) \<Rightarrow> (Inl e, s3)
         | (Inr u, s3) \<Rightarrow>
             save_then_return path
               (case Map_get (breakPoints s3) path of None \<Rightarrow> bp | Some a \<Rightarrow> last a) s3)"

text \<open>\<open>Array.prototype.findIndex\<close>: the first index whose element satisfies the test, or -1.\<close>

fun findIndex :: "('a \<Rightarrow> bool) \<Rightarrow> 'a list \<Rightarrow> int" where
  "findIndex P [] = - 1"
| "findIndex P (x # xs) =
     (if P x then 0 else (let r = findIndex P xs in if r < 0 then - 1 else r + 1))"

text \<open>\<open>bps.splice(index, 1)\<close> for an index within the array.\<close>

definition splice1 :: "nat \<Rightarrow> 'a list \<Rightarrow> 'a list" where
  "splice1 i xs = take i xs @ drop (Suc i) xs"

text \<open>
  \<open>clearBreakPoint\<close> returns the removed breakpoint, or \<open>undefined\<close> (\<open>None\<close>). The splice
  comes before the save.
\<close>

definition clearBreakPoint ::
  "jsstring \<Rightarrow> int \<Rightarrow> runtime \<Rightarrow> VanessaBreakpoint option outcome" where
  "clearBreakPoint path ln s =
     (case Map_get (breakPoints s) path of
        None \<Rightarrow> save_then_return path None s
      | Some bps \<Rightarrow>
          (let index = findIndex (\<lambda>bp. line bp = ln) bps in
           if index \<ge> 0 then
             (let bp = bps ! nat index;
                  s1 = s\<lparr>breakPoints :=
                          Map_set (breakPoints s) path (splice1 (nat index) bps)\<rparr>
              in save_then_return path (Some bp) s1)
           else save_then_return path None s))"

definition clearBreakpoints :: "jsstring \<Rightarrow> runtime \<Rightarrow> unit outcome" where
  "clearBreakpoints path s =
     save_then_return path () (s\<lparr>breakPoints := Map_delete (breakPoints s) path\<rparr>)"

section \<open>The external status file\<close>

definition stepOver :: jsstring where
  "stepOver = js ''workbench.action.debug.stepOver''"

text \<open>
  \<open>setCurrentLineInSource\<close>, the part that runs at once: with an active editor on
  another document it only asks for the document to be opened (the rest runs when the
  promises resolve); otherwise it sets the line and asks for one step over.
\<close>

definition setCurrentLineInSource :: "debugInfo \<Rightarrow> runtime \<Rightarrow> runtime" where
  "setCurrentLineInSource info s =
     (if activeTextEditor s \<noteq> None \<and> Some (info_file info) \<noteq> activeTextEditor s then
        s\<lparr>requests := requests s @ [OpenTextDocument (info_file info)]\<rparr>
      else
        s\<lparr>currentLine := info_line info - 1,
          requests := requests s @ [ExecuteCommand stepOver]\<rparr>)"

text \<open>The callback \<open>td => ...\<close> of \<open>openTextDocument\<close>: it asks for the document to be shown.\<close>

definition openTextDocument_then :: "debugInfo \<Rightarrow> runtime \<Rightarrow> runtime" where
  "openTextDocument_then info s =
     s\<lparr>requests := requests s @ [ShowTextDocument (info_file info)]\<rparr>"

text \<open>
  The callback of \<open>showTextDocument\<close>: \<open>start(file, true)\<close>, then the line and the step
  over. An exception of \<open>start\<close> ends the callback.
\<close>

definition showTextDocument_then :: "debugInfo \<Rightarrow> runtime \<Rightarrow> unit outcome" where
  "showTextDocument_then info s =
     (case start (info_file info) True s of
        (Inl e, s1) \<Rightarrow> (Inl e, s1)
      | (Inr u, s1) \<Rightarrow>
          (Inr (), s1\<lparr>currentLine := info_line info - 1,
                      requests := requests s1 @ [ExecuteCommand stepOver]\<rparr>))"

text \<open>
  The callback of \<open>fs.readFile\<close> in the constructor. \<open>data\<close> is undefined when the read
  failed; \<open>if (data)\<close> also rejects the empty string. \<open>JSON.parse\<close> is the platform's: it is
  a parameter, giving the decoded status record or the \<open>SyntaxError\<close> it throws. Nothing
  catches that exception. (Content that is JSON but not a status record is not modelled:
  the cast \<open>as {file, line, status}\<close> checks nothing.)
\<close>

definition readFile_callback ::
  "(jsstring \<Rightarrow> error + debugInfo) \<Rightarrow> jsstring option \<Rightarrow> runtime \<Rightarrow> unit outcome" where
  "readFile_callback JSON_parse data s =
     (case data of
        None \<Rightarrow> (Inr (), s)
      | Some content \<Rightarrow>
          if content = [] then (Inr (), s)
          else
            (case JSON_parse content of
               Inl e \<Rightarrow> (Inl e, s)
             | Inr info \<Rightarrow> (Inr (), setCurrentLineInSource info s)))"

text \<open>The listener of \<open>fs.watchFile\<close>: it reads the status file and runs the callback.\<close>

definition watchFile_listener ::
  "(jsstring \<Rightarrow> error + debugInfo) \<Rightarrow> runtime \<Rightarrow> unit outcome" where
  "watchFile_listener JSON_parse s = readFile_callback JSON_parse (statusFile s) s"

section \<open>Sequences of calls\<close>

text \<open>
  The calls a runtime receives during its life: the public methods, the verification
  pass, the three steps of the external status path (the record arrives, the document
  is opened, the document is shown), and the changes of the environment (a source file
  is written or removed, another editor becomes active, the folder of the breakpoints
  file appears or disappears).
\<close>

datatype call =
    Start jsstring bool
  | Continue
  | Step jsstring
  | SetBreakPoint jsstring int
  | ClearBreakPoint jsstring int
  | ClearBreakpoints jsstring
  | VerifyBreakpoints jsstring
  | StatusRecord debugInfo
  | DocumentOpened debugInfo
  | DocumentShown debugInfo
  | FileWritten jsstring "jsstring option"
  | EditorActivated "jsstring option"
  | FolderChanged bool

text \<open>The state a call leaves behind, whether it returns or throws.\<close>

fun perform :: "call \<Rightarrow> runtime \<Rightarrow> runtime" where
  "perform (Start f stopOnEntry) s = snd (start f stopOnEntry s)"
| "perform Continue s = snd (continue False s)"
| "perform (Step event) s = snd (step False event s)"
| "perform (SetBreakPoint path ln) s = snd (setBreakPoint path ln s)"
| "perform (ClearBreakPoint path ln) s = snd (clearBreakPoint path ln s)"
| "perform (ClearBreakpoints path) s = snd (clearBreakpoints path s)"
| "perform (VerifyBreakpoints path) s = snd (verifyBreakpoints path s)"
| "perform (StatusRecord info) s = setCurrentLineInSource info s"
| "perform (DocumentOpened info) s = openTextDocument_then info s"
| "perform (DocumentShown info) s = snd (showTextDocument_then info s)"
| "perform (FileWritten path content) s = s\<lparr>files := (files s)(path := content)\<rparr>"
| "perform (EditorActivated editor) s = s\<lparr>activeTextEditor := editor\<rparr>"
| "perform (FolderChanged writable) s = s\<lparr>breaksWritable := writable\<rparr>"

fun perform_all :: "call list \<Rightarrow> runtime \<Rightarrow> runtime" where
  "perform_all [] s = s"
| "perform_all (c # cs) s = perform_all cs (perform c s)"




text \<open>
  The id of the breakpoint object that \<open>setBreakPoint path ln\<close> creates in state \<open>s\<close>:
  the object is pushed onto the end of the array of \<open>path\<close>, and stays there whether the
  call returns or throws.
\<close>

definition created_id :: "jsstring \<Rightarrow> int \<Rightarrow> runtime \<Rightarrow> int" where
  "created_id path ln s =
     (case Map_get (breakPoints (snd (setBreakPoint path ln s))) path of
        None \<Rightarrow> 0
      | Some a \<Rightarrow> id_bp (last a))"

text \<open>The ids created by the \<open>setBreakPoint\<close> calls of a sequence, in the order of the calls.\<close>

fun created_ids :: "call list \<Rightarrow> runtime \<Rightarrow> int list" where
  "created_ids [] s = []"
| "created_ids (SetBreakPoint path ln # cs) s =
     created_id path ln s # created_ids cs (perform (SetBreakPoint path ln) s)"
| "created_ids (c # cs) s = created_ids cs (perform c s)"

section \<open>Predicates on states\<close>

text \<open>Every breakpoint of every file is unverified.\<close>

definition all_unverified :: "runtime \<Rightarrow> bool" where
  "all_unverified s \<longleftrightarrow>
     list_all (\<lambda>(path, bps). list_all (\<lambda>bp. \<not> verified bp) bps) (breakPoints s)"

text \<open>The breakpoints of \<open>path\<close> have the non-negative lines of the data model.\<close>

definition lines_nonneg :: "jsstring \<Rightarrow> runtime \<Rightarrow> bool" where
  "lines_nonneg path s \<longleftrightarrow>
     (case Map_get (breakPoints s) path of
        None \<Rightarrow> True
      | Some bps \<Rightarrow> list_all (\<lambda>bp. 0 \<le> line bp) bps)"

text \<open>
  \<open>loadSource path\<close> will leave the lines of \<open>path\<close> loaded: either they are cached, or the
  file can be read.
\<close>

definition loadable :: "jsstring \<Rightarrow> runtime \<Rightarrow> bool" where
  "loadable path s \<longleftrightarrow>
     (if sourceFile s = Some path then sourceLines s \<noteq> None else files s path \<noteq> None)"












section \<open>Reading the breakpoints file back\<close>






section \<open>Sample inputs\<close>

text \<open>A feature file of four lines: a step, a blank line, a continuation line, a step.\<close>

definition a_feature :: jsstring where
  "a_feature = js ''a.feature''"

definition sample_files :: "jsstring \<Rightarrow> jsstring option" where
  "sample_files =
     [a_feature \<mapsto> js ''Given x\<newline>\<newline>  + more\<newline>Then y'']"

definition fresh :: runtime where
  "fresh = new_runtime sample_files (Some a_feature) True"

text \<open>The status record of the spec's scenario: line 7 of \<open>other.feature\<close>.\<close>

definition sample_info :: debugInfo where
  "sample_info =
     \<lparr>info_file = js ''other.feature'', info_line = 7, info_status = js ''run'',
      info_done = None\<rparr>"

text \<open>
  A stand-in for \<open>JSON.parse\<close> that agrees with it on the two status-file contents used
  below: the text of that status record, and the text \<open>{\<close>, which is not JSON.
\<close>

definition sample_parse :: "jsstring \<Rightarrow> error + debugInfo" where
  "sample_parse content =
     (if content = js ''{\"file\":\"other.feature\",\"line\":7,\"status\":\"run\"}''
      then Inr sample_info else Inl SyntaxError)"

text \<open>
  A registry for the sample file: one breakpoint on the blank line 1 (followed by the
  continuation line 2), one on the step of line 3, one beyond the end of the file.
\<close>

definition sample_registry :: runtime where
  "sample_registry =
     fresh\<lparr>breakPoints :=
              [(a_feature, [\<lparr>id_bp = 2, line = 1, verified = False\<rparr>,
                            \<lparr>id_bp = 3, line = 3, verified = False\<rparr>,
                            \<lparr>id_bp = 4, line = 9, verified = False\<rparr>])],
           breakpointId := 4\<rparr>"

text \<open>The sample registry where the breakpoints file cannot be written.\<close>

definition unwritable_registry :: runtime where
  "unwritable_registry = sample_registry\<lparr>breaksWritable := False\<rparr>"





text \<open>
  A sequence of calls: a breakpoint on the blank line, its removal from the line it
  moved to, a breakpoint in a file that cannot be read (the call throws), a start, and
  a breakpoint on the blank line again.
\<close>

definition sample_calls :: "call list" where
  "sample_calls =
     [SetBreakPoint a_feature 1, ClearBreakPoint a_feature 2,
      SetBreakPoint (js ''ghost.feature'') 0, Start a_feature True,
      SetBreakPoint a_feature 1]"

section \<open>Lemmas about the library functions\<close>

lemma Map_get_Map_set_same: "Map_get (Map_set m k v) k = Some v"
  by (induction m) auto


lemma Map_get_Map_set_other: "k' \<noteq> k \<Longrightarrow> Map_get (Map_set m k v) k' = Map_get m k'"
  by (induction m) auto

lemma indexOf_zero: "indexOf xs c = 0 \<longleftrightarrow> take 1 xs = [c]"
  by (cases xs) (auto simp: Let_def)

lemma forEach_verify_ok:
  "forEach_verify lines bps = (None, bps') \<Longrightarrow>
     length bps' = length bps \<and> (\<forall>i<length bps. verifyBreakpoint lines (bps ! i) = Inr (bps' ! i))"
proof (induction bps arbitrary: bps')
  case Nil
  then show ?case by simp
next
  case (Cons bp bps)
  from Cons.prems obtain b r where b: "verifyBreakpoint lines bp = Inr b"
    and r: "forEach_verify lines bps = (None, r)" and eq: "bps' = b # r"
    by (auto split: sum.splits prod.splits)
  from Cons.IH[OF r] show ?case using b eq
    by (auto simp: nth_Cons split: nat.splits)
qed

lemma save_then_return_cases:
  "save_then_return path v s =
     (if breaksWritable s
      then (Inr v, s\<lparr>breaksFile := Some (breakPointsInfo (breakPoints s))\<rparr>)
      else (Inl ENOENT, s))"
  by (simp add: save_then_return_def saveBreakpointsToFile_def)

lemma loadSource_ok_sourceFile:
  "loadSource file s = (Inr u, s1) \<Longrightarrow> sourceFile s1 = Some file \<and> breakPoints s1 = breakPoints s"
  by (auto simp: loadSource_def Let_def split: if_splits option.splits)

section \<open>The verification pass\<close>

text \<open>
  Claim C1. A verification pass of a file that returns visits every breakpoint of the
  file once. For an unverified breakpoint whose line is an index of the loaded source
  lines, it trims the line at that index: if the rest is empty or begins with \<open>+\<close>, the
  breakpoint's line grows by exactly one (whatever the next line holds), otherwise the
  breakpoint is unchanged. A breakpoint whose line is at or beyond the number of lines is
  unchanged.
\<close>

theorem verifyBreakpoints_single_pass:
  assumes pass: "verifyBreakpoints path s = (Inr (), s')"
    and reg: "Map_get (breakPoints s) path = Some bps"
    and i: "i < length bps"
    and unverified: "\<not> verified (bps ! i)"
  shows "\<exists>ls bps'. sourceFile s' = Some path \<and> sourceLines s' = Some ls \<and>
           Map_get (breakPoints s') path = Some bps' \<and> length bps' = length bps \<and>
           bps' ! i =
             (if 0 \<le> line (bps ! i) \<and> line (bps ! i) < int (length ls) \<and>
                 (trim (ls ! nat (line (bps ! i))) = [] \<or>
                  take 1 (trim (ls ! nat (line (bps ! i)))) = [plus_sign])
              then (bps ! i)\<lparr>line := line (bps ! i) + 1\<rparr>
              else bps ! i)"
proof -
  from pass reg obtain s1 bps' where load: "loadSource path s = (Inr (), s1)"
    and each: "forEach_verify (sourceLines s1) bps = (None, bps')"
    and s': "s' = s1\<lparr>breakPoints := Map_set (breakPoints s1) path bps'\<rparr>"
    by (auto simp: verifyBreakpoints_def split: prod.splits sum.splits option.splits)
  from forEach_verify_ok[OF each] i
  have len: "length bps' = length bps"
    and one: "verifyBreakpoint (sourceLines s1) (bps ! i) = Inr (bps' ! i)"
    by auto
  from one unverified obtain ls where ls: "sourceLines s1 = Some ls"
    by (auto simp: verifyBreakpoint_def split: option.splits)
  from one unverified ls
  have "bps' ! i =
          (if 0 \<le> line (bps ! i) \<and> line (bps ! i) < int (length ls) \<and>
              (trim (ls ! nat (line (bps ! i))) = [] \<or>
               take 1 (trim (ls ! nat (line (bps ! i)))) = [plus_sign])
           then (bps ! i)\<lparr>line := line (bps ! i) + 1\<rparr>
           else bps ! i)"
    by (auto simp: verifyBreakpoint_def Let_def indexOf_zero split: if_splits)
  moreover have "sourceFile s' = Some path" "sourceLines s' = Some ls"
    using loadSource_ok_sourceFile[OF load] ls s' by auto
  moreover have "Map_get (breakPoints s') path = Some bps'"
    using s' by (simp add: Map_get_Map_set_same)
  ultimately show ?thesis using len by blast
qed

text \<open>
  On the sample registry the breakpoint on the blank line 1 moves to line 2, which is a
  continuation line: the pass does not move it further.
\<close>

lemma sample_pass:
  "fst (verifyBreakpoints a_feature sample_registry) = Inr ()"
  by code_simp

lemma sample_pass_lines:
  "sourceLines (snd (verifyBreakpoints a_feature sample_registry)) =
     Some [js ''Given x'', [], js ''  + more'', js ''Then y'']"
  by code_simp

lemma sample_reg: "Map_get (breakPoints sample_registry) a_feature =
   Some [\<lparr>id_bp = 2, line = 1, verified = False\<rparr>,
                            \<lparr>id_bp = 3, line = 3, verified = False\<rparr>,
                            \<lparr>id_bp = 4, line = 9, verified = False\<rparr>]"
  by (simp add: sample_registry_def)

theorem verifyBreakpoints_single_pass_witness:
  "\<exists>bps'. Map_get (breakPoints (snd (verifyBreakpoints a_feature sample_registry))) a_feature = Some bps'
      \<and> length bps' = 3 \<and> bps' ! 0 = \<lparr>id_bp = 2, line = 2, verified = False\<rparr>"
proof -
  have pass: "verifyBreakpoints a_feature sample_registry =
        (Inr (), snd (verifyBreakpoints a_feature sample_registry))"
    using sample_pass by (simp add: prod_eq_iff)
  from verifyBreakpoints_single_pass[OF pass sample_reg, of 0]
  obtain ls bps' where ls: "sourceLines (snd (verifyBreakpoints a_feature sample_registry)) = Some ls"
    and reg': "Map_get (breakPoints (snd (verifyBreakpoints a_feature sample_registry))) a_feature = Some bps'"
    and len: "length bps' = 3"
    and new: "bps' ! 0 = (if 1 < int (length ls) \<and> (trim (ls ! nat 1) = [] \<or> take 1 (trim (ls ! nat 1)) = [plus_sign])
         then \<lparr>id_bp = 2, line = 1 + 1, verified = False\<rparr> else \<lparr>id_bp = 2, line = 1, verified = False\<rparr>)"
    by auto
  from ls sample_pass_lines have "ls = [js ''Given x'', [], js ''  + more'', js ''Then y'']"
    by simp
  with new have "bps' ! 0 = \<lparr>id_bp = 2, line = 2, verified = False\<rparr>"
    by (simp add: trim_def)
  with reg' len show ?thesis by blast
qed

section \<open>Running through the file\<close>

lemma run_loop_no_stop:
  "\<not> (\<exists>e. stepEvent = Some e \<and> e \<noteq> []) \<Longrightarrow>
     run_loop stepEvent n ln s = sendEvent (js ''end'') s"
proof (induction stepEvent n ln s rule: run_loop.induct)
  case (1 stepEvent n ln s)
  have fe: "fireEventsForLine ln stepEvent s = (False, s)"
    using "1.prems" by (auto simp: fireEventsForLine_def split: option.splits)
  show ?case
  proof (cases "ln < n")
    case True
    have "run_loop stepEvent n (ln + 1) s = sendEvent (js ''end'') s"
      using "1.IH"[OF True] fe "1.prems" by auto
    then show ?thesis using True fe by (subst run_loop.simps) simp
  next
    case False
    then show ?thesis by (subst run_loop.simps) simp
  qed
qed


lemma run_loop_step:
  "event \<noteq> [] \<Longrightarrow> currentLine s \<le> ln \<Longrightarrow>
     run_loop (Some event) n ln s =
       (if ln < n then (sendEvent event s)\<lparr>currentLine := ln\<rparr> else sendEvent (js ''end'') s)"
  by (subst run_loop.simps) (simp add: fireEventsForLine_def)

lemma split_on_nonempty: "split_on sep xs \<noteq> []"
  by (induction xs) (auto split: list.splits)

lemma loadSource_frame:
  "loadSource file s = (r, s1) \<Longrightarrow>
     currentLine s1 = currentLine s \<and> breakPoints s1 = breakPoints s \<and>
     breakpointId s1 = breakpointId s \<and> files s1 = files s \<and> breaksFile s1 = breaksFile s \<and>
     statusFile s1 = statusFile s \<and> activeTextEditor s1 = activeTextEditor s \<and>
     requests s1 = requests s \<and> emitted s1 = emitted s"
  by (auto simp: loadSource_def Let_def split: if_splits option.splits)


lemma verifyBreakpoints_frame:
  "verifyBreakpoints path s = (r, s') \<Longrightarrow>
     currentLine s' = currentLine s \<and> breakpointId s' = breakpointId s \<and>
     files s' = files s \<and> breaksFile s' = breaksFile s \<and> statusFile s' = statusFile s \<and>
     activeTextEditor s' = activeTextEditor s \<and> requests s' = requests s \<and>
     emitted s' = emitted s"
  by (auto simp: verifyBreakpoints_def split: option.splits prod.splits sum.splits
      dest!: loadSource_frame)












section \<open>Clearing one breakpoint\<close>

lemma findIndex_absent: "list_all (\<lambda>x. \<not> P x) xs \<Longrightarrow> findIndex P xs = - 1"
  by (induction xs) auto

lemma findIndex_first:
  "list_all (\<lambda>x. \<not> P x) pre \<Longrightarrow> P x \<Longrightarrow> findIndex P (pre @ x # post) = int (length pre)"
  by (induction pre) (auto simp: Let_def)

lemma splice1_first: "splice1 (length pre) (pre @ x # post) = pre @ post"
  by (simp add: splice1_def)

lemma Map_set_keys: "Map_get m k = Some v \<Longrightarrow> map fst (Map_set m k w) = map fst m"
  by (induction m) (auto split: if_splits)

lemma clearBreakPoint_found:
  assumes "Map_get (breakPoints s) path = Some (pre @ bp # post)"
    and "list_all (\<lambda>b. line b \<noteq> ln) pre" and "line bp = ln"
  shows "clearBreakPoint path ln s =
           save_then_return path (Some bp)
             (s\<lparr>breakPoints := Map_set (breakPoints s) path (pre @ post)\<rparr>)"
proof -
  have "findIndex (\<lambda>b. line b = ln) (pre @ bp # post) = int (length pre)"
    using assms by (intro findIndex_first) auto
  with assms(1) show ?thesis
    by (simp add: clearBreakPoint_def Let_def splice1_first)
qed

lemma clearBreakPoint_not_found:
  assumes "Map_get (breakPoints s) path = None \<or>
      (\<exists>bps. Map_get (breakPoints s) path = Some bps \<and> list_all (\<lambda>b. line b \<noteq> ln) bps)"
  shows "clearBreakPoint path ln s = save_then_return path None s"
  using assms by (auto simp: clearBreakPoint_def Let_def findIndex_absent)

lemma clearBreakPoint_outcome:
  "\<exists>r m. clearBreakPoint path ln s = save_then_return path r (s\<lparr>breakPoints := m\<rparr>)"
proof -
  have unchanged: "save_then_return path None s =
      save_then_return path None (s\<lparr>breakPoints := breakPoints s\<rparr>)"
    by simp
  show ?thesis
  proof (cases "Map_get (breakPoints s) path")
    case None
    then have "clearBreakPoint path ln s = save_then_return path None s"
      by (simp add: clearBreakPoint_def)
    with unchanged show ?thesis by metis
  next
    case (Some bps)
    show ?thesis
    proof (cases "0 \<le> findIndex (\<lambda>bp. line bp = ln) bps")
      case True
      with Some show ?thesis by (auto simp: clearBreakPoint_def Let_def)
    next
      case False
      with Some have "clearBreakPoint path ln s = save_then_return path None s"
        by (simp add: clearBreakPoint_def Let_def)
      with unchanged show ?thesis by metis
    qed
  qed
qed

text \<open>
  Claim C4, as amended. When the sequence of the path has a first breakpoint on the
  given line, \<open>clearBreakPoint\<close> removes it, the rest of the sequence, the other paths and
  the order of the paths staying as they were; when the path is unknown or none of its
  breakpoints is on the line, the map is unchanged. When the breakpoints file can be
  written, the call returns the removed breakpoint, or nothing found, changes nothing
  but the map and the file, and leaves in the file the document of the whole map as it
  is after the call. When the file cannot be written, the call throws the error of the
  write, after the removal, and the file is as it was.
\<close>

theorem clearBreakPoint_first_match:
  "(Map_get (breakPoints s) path = Some (pre @ bp # post) \<and>
      list_all (\<lambda>b. line b \<noteq> ln) pre \<and> line bp = ln \<longrightarrow>
        Map_get (breakPoints (snd (clearBreakPoint path ln s))) path = Some (pre @ post) \<and>
        (\<forall>p. p \<noteq> path \<longrightarrow>
           Map_get (breakPoints (snd (clearBreakPoint path ln s))) p =
           Map_get (breakPoints s) p) \<and>
        map fst (breakPoints (snd (clearBreakPoint path ln s))) = map fst (breakPoints s) \<and>
        (breaksWritable s \<longrightarrow> fst (clearBreakPoint path ln s) = Inr (Some bp))) \<and>
   (Map_get (breakPoints s) path = None \<or>
      (\<exists>bps. Map_get (breakPoints s) path = Some bps \<and> list_all (\<lambda>b. line b \<noteq> ln) bps) \<longrightarrow>
        breakPoints (snd (clearBreakPoint path ln s)) = breakPoints s \<and>
        (breaksWritable s \<longrightarrow> fst (clearBreakPoint path ln s) = Inr None)) \<and>
   (breaksWritable s \<longrightarrow>
      (\<exists>r s'. clearBreakPoint path ln s = (Inr r, s') \<and>
         s' = s\<lparr>breakPoints := breakPoints s', breaksFile := breaksFile s'\<rparr> \<and>
         breaksFile s' = Some (breakPointsInfo (breakPoints s')))) \<and>
   (\<not> breaksWritable s \<longrightarrow>
      fst (clearBreakPoint path ln s) = Inl ENOENT \<and>
      breaksFile (snd (clearBreakPoint path ln s)) = breaksFile s)"
proof (intro conjI impI)
  assume a: "Map_get (breakPoints s) path = Some (pre @ bp # post) \<and>
      list_all (\<lambda>b. line b \<noteq> ln) pre \<and> line bp = ln"
  then have eq: "clearBreakPoint path ln s =
      save_then_return path (Some bp)
        (s\<lparr>breakPoints := Map_set (breakPoints s) path (pre @ post)\<rparr>)"
    by (intro clearBreakPoint_found) auto
  show "Map_get (breakPoints (snd (clearBreakPoint path ln s))) path = Some (pre @ post)"
    by (simp add: eq save_then_return_cases Map_get_Map_set_same)
  show "\<forall>p. p \<noteq> path \<longrightarrow>
           Map_get (breakPoints (snd (clearBreakPoint path ln s))) p =
           Map_get (breakPoints s) p"
    by (simp add: eq save_then_return_cases Map_get_Map_set_other)
  show "map fst (breakPoints (snd (clearBreakPoint path ln s))) = map fst (breakPoints s)"
    using a by (simp add: eq save_then_return_cases Map_set_keys)
  assume "breaksWritable s"
  then show "fst (clearBreakPoint path ln s) = Inr (Some bp)"
    by (simp add: eq save_then_return_cases)
next
  assume a: "Map_get (breakPoints s) path = None \<or>
      (\<exists>bps. Map_get (breakPoints s) path = Some bps \<and> list_all (\<lambda>b. line b \<noteq> ln) bps)"
  note eq = clearBreakPoint_not_found[OF a]
  show "breakPoints (snd (clearBreakPoint path ln s)) = breakPoints s"
    by (simp add: eq save_then_return_cases)
  assume "breaksWritable s"
  then show "fst (clearBreakPoint path ln s) = Inr None"
    by (simp add: eq save_then_return_cases)
next
  assume w: "breaksWritable s"
  from clearBreakPoint_outcome[of path ln s] obtain r m where
    eq: "clearBreakPoint path ln s = save_then_return path r (s\<lparr>breakPoints := m\<rparr>)"
    by blast
  let ?s' = "s\<lparr>breakPoints := m, breaksFile := Some (breakPointsInfo m)\<rparr>"
  have "clearBreakPoint path ln s = (Inr r, ?s')"
    using w by (simp add: eq save_then_return_cases)
  moreover have "?s' = s\<lparr>breakPoints := breakPoints ?s', breaksFile := breaksFile ?s'\<rparr>"
    by simp
  moreover have "breaksFile ?s' = Some (breakPointsInfo (breakPoints ?s'))" by simp
  ultimately show "\<exists>r s'. clearBreakPoint path ln s = (Inr r, s') \<and>
         s' = s\<lparr>breakPoints := breakPoints s', breaksFile := breaksFile s'\<rparr> \<and>
         breaksFile s' = Some (breakPointsInfo (breakPoints s'))"
    by blast
next
  assume w: "\<not> breaksWritable s"
  from clearBreakPoint_outcome[of path ln s] obtain r m where
    eq: "clearBreakPoint path ln s = save_then_return path r (s\<lparr>breakPoints := m\<rparr>)"
    by blast
  show "fst (clearBreakPoint path ln s) = Inl ENOENT"
    using w by (simp add: eq save_then_return_cases)
  show "breaksFile (snd (clearBreakPoint path ln s)) = breaksFile s"
    using w by (simp add: eq save_then_return_cases)
qed

text \<open>
  On the sample registry, where the file can be written, clearing line 3 removes and
  returns the second of the three breakpoints, and clearing line 5, where there is none,
  finds nothing; the file, absent before, is written both times. Where the file cannot
  be written, clearing line 5 throws and the file stays absent.
\<close>

theorem clearBreakPoint_first_match_witness:
  "fst (clearBreakPoint a_feature 3 sample_registry) =
     Inr (Some \<lparr>id_bp = 3, line = 3, verified = False\<rparr>) \<and>
   Map_get (breakPoints (snd (clearBreakPoint a_feature 3 sample_registry))) a_feature =
     Some [\<lparr>id_bp = 2, line = 1, verified = False\<rparr>, \<lparr>id_bp = 4, line = 9, verified = False\<rparr>] \<and>
   fst (clearBreakPoint a_feature 5 sample_registry) = Inr None \<and>
   breakPoints (snd (clearBreakPoint a_feature 5 sample_registry)) = breakPoints sample_registry \<and>
   breaksFile sample_registry = None \<and>
   (\<exists>r s'. clearBreakPoint a_feature 5 sample_registry = (Inr r, s') \<and>
      breaksFile s' = Some (breakPointsInfo (breakPoints s'))) \<and>
   fst (clearBreakPoint a_feature 5 unwritable_registry) = Inl ENOENT \<and>
   breaksFile (snd (clearBreakPoint a_feature 5 unwritable_registry)) = None"
proof -
  let ?b2 = "\<lparr>id_bp = 2, line = 1, verified = False\<rparr>"
  let ?b3 = "\<lparr>id_bp = 3, line = 3, verified = False\<rparr>"
  let ?b4 = "\<lparr>id_bp = 4, line = 9, verified = False\<rparr>"
  have writable: "breaksWritable sample_registry"
    by (simp add: sample_registry_def fresh_def new_runtime_def)
  have found: "Map_get (breakPoints sample_registry) a_feature = Some ([?b2] @ ?b3 # [?b4]) \<and>
      list_all (\<lambda>b. line b \<noteq> 3) [?b2] \<and> line ?b3 = 3"
    by (simp add: sample_reg)
  have missing: "Map_get (breakPoints sample_registry) a_feature = None \<or>
      (\<exists>bps. Map_get (breakPoints sample_registry) a_feature = Some bps \<and>
         list_all (\<lambda>b. line b \<noteq> 5) bps)"
    by (simp add: sample_reg)
  have "fst (clearBreakPoint a_feature 3 sample_registry) = Inr (Some ?b3) \<and>
        Map_get (breakPoints (snd (clearBreakPoint a_feature 3 sample_registry))) a_feature =
          Some ([?b2] @ [?b4])"
    using clearBreakPoint_first_match[of sample_registry a_feature "[?b2]" ?b3 "[?b4]" 3]
      found writable
    by blast
  moreover have "fst (clearBreakPoint a_feature 5 sample_registry) = Inr None \<and>
        breakPoints (snd (clearBreakPoint a_feature 5 sample_registry)) =
          breakPoints sample_registry"
    using clearBreakPoint_first_match[of sample_registry a_feature "[]" ?b2 "[]" 5]
      missing writable
    by blast
  moreover have "\<exists>r s'. clearBreakPoint a_feature 5 sample_registry = (Inr r, s') \<and>
      breaksFile s' = Some (breakPointsInfo (breakPoints s'))"
    using clearBreakPoint_first_match[of sample_registry a_feature "[]" ?b2 "[]" 5] writable
    by blast
  moreover have absent: "breaksFile sample_registry = None"
    by (simp add: sample_registry_def fresh_def new_runtime_def)
  moreover have "fst (clearBreakPoint a_feature 5 unwritable_registry) = Inl ENOENT \<and>
        breaksFile (snd (clearBreakPoint a_feature 5 unwritable_registry)) = None"
  proof -
    have "\<not> breaksWritable unwritable_registry" "breaksFile unwritable_registry = None"
      using absent by (simp_all add: unwritable_registry_def)
    with clearBreakPoint_first_match[of unwritable_registry a_feature "[]" ?b2 "[]" 5]
    show ?thesis by simp
  qed
  ultimately show ?thesis by simp
qed

text \<open>
  The claim as stated fails where the breakpoints file cannot be written (the folder
  \<open>.vscode\<close> is missing). Clearing line 3 of the sample registry removes the breakpoint and
  then throws: nothing is returned and no file is written. Clearing line 5 reports
  nothing as not found: it throws as well.
\<close>

theorem clearBreakPoint_unwritable_counterexample:
  "fst (clearBreakPoint a_feature 3 unwritable_registry) = Inl ENOENT \<and>
   Map_get (breakPoints (snd (clearBreakPoint a_feature 3 unwritable_registry))) a_feature =
     Some [\<lparr>id_bp = 2, line = 1, verified = False\<rparr>, \<lparr>id_bp = 4, line = 9, verified = False\<rparr>] \<and>
   breaksFile (snd (clearBreakPoint a_feature 3 unwritable_registry)) = None \<and>
   fst (clearBreakPoint a_feature 5 unwritable_registry) = Inl ENOENT \<and>
   breaksFile (snd (clearBreakPoint a_feature 5 unwritable_registry)) = None"
  by code_simp

section \<open>What the calls do to the registry\<close>

lemma verifyBreakpoint_keeps:
  "verifyBreakpoint lines bp = Inr bp' \<Longrightarrow> id_bp bp' = id_bp bp \<and> verified bp' = verified bp"
  by (auto simp: verifyBreakpoint_def Let_def split: if_splits option.splits)

lemma forEach_verify_keeps:
  "forEach_verify lines bps = (r, bps') \<Longrightarrow>
     map id_bp bps' = map id_bp bps \<and> map verified bps' = map verified bps"
proof (induction bps arbitrary: r bps')
  case Nil
  then show ?case by simp
next
  case (Cons bp bps)
  show ?case
  proof (cases "verifyBreakpoint lines bp")
    case (Inl e)
    with Cons.prems show ?thesis by simp
  next
    case (Inr b)
    obtain r0 bps0 where rest: "forEach_verify lines bps = (r0, bps0)"
      by (cases "forEach_verify lines bps")
    with Cons.prems Inr have "bps' = b # bps0" by simp
    with Cons.IH[OF rest] verifyBreakpoint_keeps[OF Inr] show ?thesis by simp
  qed
qed

lemma verifyBreakpoints_entry:
  assumes "verifyBreakpoints path s = (r, s')" and "Map_get (breakPoints s) path = Some bps"
  shows "\<exists>bps'. Map_get (breakPoints s') path = Some bps' \<and>
           map id_bp bps' = map id_bp bps \<and> map verified bps' = map verified bps \<and>
           (breakPoints s' = breakPoints s \<or>
            breakPoints s' = Map_set (breakPoints s) path bps')"
proof (cases "loadSource path s")
  case (Pair r1 s1)
  from loadSource_frame[OF Pair] have bp1: "breakPoints s1 = breakPoints s" by simp
  show ?thesis
  proof (cases r1)
    case (Inl e)
    with assms Pair bp1 show ?thesis by (simp add: verifyBreakpoints_def)
  next
    case (Inr u)
    obtain r2 bps' where each: "forEach_verify (sourceLines s1) bps = (r2, bps')"
      by (cases "forEach_verify (sourceLines s1) bps")
    with assms Pair Inr have "s' = s1\<lparr>breakPoints := Map_set (breakPoints s1) path bps'\<rparr>"
      by (auto simp: verifyBreakpoints_def)
    with forEach_verify_keeps[OF each] bp1 show ?thesis
      by (simp add: Map_get_Map_set_same)
  qed
qed

lemma verifyBreakpoints_absent:
  "Map_get (breakPoints s) path = None \<Longrightarrow> verifyBreakpoints path s = (Inr (), s)"
  by (simp add: verifyBreakpoints_def)

lemma list_all_Map_set: "list_all Q m \<Longrightarrow> Q (k, v) \<Longrightarrow> list_all Q (Map_set m k v)"
  by (induction m) auto

lemma list_all_Map_delete: "list_all Q m \<Longrightarrow> list_all Q (Map_delete m k)"
  by (induction m) auto

lemma list_all_Map_get: "list_all Q m \<Longrightarrow> Map_get m k = Some v \<Longrightarrow> Q (k, v)"
  by (induction m) (auto split: if_splits)

lemma unverified_map: 
  "map verified bps' = map verified bps \<Longrightarrow> list_all (\<lambda>bp. \<not> verified bp) bps \<Longrightarrow>
     list_all (\<lambda>bp. \<not> verified bp) bps'"
proof (induction bps arbitrary: bps')
  case Nil
  then show ?case by simp
next
  case (Cons b bps)
  then show ?case by (cases bps') auto
qed

lemma verifyBreakpoints_unverified:
  assumes "all_unverified s"
  shows "all_unverified (snd (verifyBreakpoints path s))"
proof (cases "Map_get (breakPoints s) path")
  case None
  with assms show ?thesis by (simp add: verifyBreakpoints_absent)
next
  case (Some bps)
  obtain r s' where v: "verifyBreakpoints path s = (r, s')"
    by (cases "verifyBreakpoints path s")
  from assms Some have "list_all (\<lambda>bp. \<not> verified bp) bps"
    unfolding all_unverified_def by (auto dest: list_all_Map_get)
  with verifyBreakpoints_entry[OF v Some] assms show ?thesis
    unfolding all_unverified_def v
    by (auto intro!: list_all_Map_set dest: unverified_map)
qed

lemma verifyBreakpoints_snd_frame:
  "breakpointId (snd (verifyBreakpoints path s)) = breakpointId s"
  using verifyBreakpoints_frame[OF surjective_pairing, of path s] by simp

lemma run_frame:
  "run stepEvent s = (r, s') \<Longrightarrow>
     breakPoints s' = breakPoints s \<and> breakpointId s' = breakpointId s"
proof (cases "\<exists>e. stepEvent = Some e \<and> e \<noteq> []")
  case True
  assume "run stepEvent s = (r, s')"
  with True show ?thesis
    by (auto simp: run_def run_loop_step sendEvent_def split: option.splits if_splits)
next
  case False
  assume "run stepEvent s = (r, s')"
  with run_loop_no_stop[OF False] show ?thesis
    by (auto simp: run_def sendEvent_def split: option.splits)
qed

lemma start_failed_load:
  "loadSource f s = (Inl e, s1) \<Longrightarrow> start f stopOnEntry s = (Inl e, s1)"
  by (simp add: start_def)

lemma start_loaded:
  assumes "loadSource f s = (Inr u, s1)"
    and "verifyBreakpoints f (s1\<lparr>currentLine := - 1\<rparr>) = (r3, s3)"
  shows "start f stopOnEntry s =
           (case r3 of
              Inl e \<Rightarrow> (Inl e, s3)
            | Inr u \<Rightarrow>
                if stopOnEntry then step False (js ''stopOnEntry'') s3 else continue False s3)"
  using assms loadSource_ok_sourceFile[OF assms(1)]
  by (simp add: start_def Let_def split: sum.splits)

lemma start_registry:
  "breakpointId (snd (start f stopOnEntry s)) = breakpointId s \<and>
   (all_unverified s \<longrightarrow> all_unverified (snd (start f stopOnEntry s)))"
proof (cases "loadSource f s")
  case (Pair r1 s1)
  note fr1 = loadSource_frame[OF Pair]
  show ?thesis
  proof (cases r1)
    case (Inl e)
    with Pair fr1 show ?thesis by (simp add: start_failed_load all_unverified_def)
  next
    case (Inr u)
    define s2 where "s2 = s1\<lparr>currentLine := - 1\<rparr>"
    obtain r3 s3 where v3: "verifyBreakpoints f s2 = (r3, s3)"
      by (cases "verifyBreakpoints f s2")
    have id3: "breakpointId s3 = breakpointId s"
      using fr1 verifyBreakpoints_frame[OF v3] by (simp add: s2_def)
    have un3: "all_unverified s \<Longrightarrow> all_unverified s3"
    proof -
      assume "all_unverified s"
      with fr1 have "all_unverified s2" by (simp add: s2_def all_unverified_def)
      from verifyBreakpoints_unverified[OF this, of f] v3 show ?thesis by simp
    qed
    note st = start_loaded[OF Pair[unfolded Inr] v3[unfolded s2_def], of stopOnEntry]
    show ?thesis
    proof (cases r3)
      case (Inl e)
      with st id3 un3 show ?thesis by simp
    next
      case (Inr u3)
      have "breakPoints (snd (start f stopOnEntry s)) = breakPoints s3 \<and>
            breakpointId (snd (start f stopOnEntry s)) = breakpointId s3"
        using st Inr run_frame[OF surjective_pairing, of None s3]
          run_frame[OF surjective_pairing, of "Some (js ''stopOnEntry'')" s3]
        by (simp add: step_def continue_def)
      with id3 un3 show ?thesis by (simp add: all_unverified_def)
    qed
  qed
qed

lemma setBreakPoint_registry:
  "breakpointId (snd (setBreakPoint path ln s)) = breakpointId s + 1 \<and>
   created_id path ln s = breakpointId s + 1 \<and>
   (all_unverified s \<longrightarrow> all_unverified (snd (setBreakPoint path ln s))) \<and>
   (\<forall>b. fst (setBreakPoint path ln s) = Inr b \<longrightarrow> id_bp b = breakpointId s + 1)"
proof -
  define bp where "bp = \<lparr>id_bp = breakpointId s + 1, line = ln, verified = False\<rparr>"
  define bps where "bps = (case Map_get (breakPoints s) path of None \<Rightarrow> [] | Some a \<Rightarrow> a)"
  define s2 where "s2 = s\<lparr>breakpointId := breakpointId s + 1,
                           breakPoints := Map_set (breakPoints s) path (bps @ [bp])\<rparr>"
  obtain r s3 where v: "verifyBreakpoints path s2 = (r, s3)"
    by (cases "verifyBreakpoints path s2")
  have reg2: "Map_get (breakPoints s2) path = Some (bps @ [bp])"
    by (simp add: s2_def Map_get_Map_set_same)
  from verifyBreakpoints_entry[OF v reg2] obtain bps' where
    reg3: "Map_get (breakPoints s3) path = Some bps'"
    and ids: "map id_bp bps' = map id_bp (bps @ [bp])" by blast
  from ids have ne: "bps' \<noteq> []" by auto
  have "id_bp (last bps') = last (map id_bp bps')" using ne by (simp add: last_map)
  with ids have last_id: "id_bp (last bps') = breakpointId s + 1" by (simp add: bp_def)
  have eq: "setBreakPoint path ln s =
      (case r of Inl e \<Rightarrow> (Inl e, s3)
       | Inr u \<Rightarrow> save_then_return path (last bps') s3)"
    using v reg3
    by (simp add: setBreakPoint_def Let_def s2_def bps_def bp_def split: sum.splits)
  have bp_s: "breakPoints (snd (setBreakPoint path ln s)) = breakPoints s3"
    by (simp add: eq save_then_return_cases split: sum.splits)
  have id_s: "breakpointId (snd (setBreakPoint path ln s)) = breakpointId s3"
    by (simp add: eq save_then_return_cases split: sum.splits)
  from verifyBreakpoints_frame[OF v] have id3: "breakpointId s3 = breakpointId s + 1"
    by (simp add: s2_def)
  have un: "all_unverified s \<Longrightarrow> all_unverified s3"
  proof -
    assume a: "all_unverified s"
    then have "list_all (\<lambda>bp. \<not> verified bp) bps"
      unfolding all_unverified_def bps_def
      by (auto split: option.splits dest: list_all_Map_get)
    with a have "all_unverified s2"
      unfolding all_unverified_def s2_def
      by (auto intro!: list_all_Map_set simp: bp_def)
    from verifyBreakpoints_unverified[OF this, of path] v show ?thesis by simp
  qed
  have ret: "\<forall>b. fst (setBreakPoint path ln s) = Inr b \<longrightarrow> id_bp b = breakpointId s + 1"
    using last_id by (auto simp: eq save_then_return_cases split: sum.splits if_splits)
  show ?thesis
    using id_s id3 un bp_s reg3 last_id ret
    by (simp add: created_id_def all_unverified_def)
qed

text \<open>The breakpoint a returning \<open>setBreakPoint\<close> hands back carries the id it created.\<close>

lemma returned_id_is_created:
  "setBreakPoint path ln s = (Inr b, s') \<Longrightarrow> id_bp b = created_id path ln s"
  using setBreakPoint_registry[of path ln s] by simp

lemma list_all_splice1: "list_all Q xs \<Longrightarrow> list_all Q (splice1 i xs)"
  by (auto simp: splice1_def list_all_iff dest: in_set_takeD in_set_dropD)

lemma clearBreakPoint_registry:
  "breakpointId (snd (clearBreakPoint path ln s)) = breakpointId s \<and>
   (all_unverified s \<longrightarrow> all_unverified (snd (clearBreakPoint path ln s)))"
  unfolding all_unverified_def
  by (auto simp: clearBreakPoint_def save_then_return_cases Let_def
      split: option.splits intro!: list_all_Map_set list_all_splice1 dest: list_all_Map_get)

lemma perform_registry:
  "breakpointId s \<le> breakpointId (perform c s) \<and>
   (all_unverified s \<longrightarrow> all_unverified (perform c s))"
proof (cases c)
  case (Start f stopOnEntry)
  then show ?thesis using start_registry[of f stopOnEntry s] by simp
next
  case Continue
  then show ?thesis
    using run_frame[OF surjective_pairing, of None s]
    by (simp add: continue_def all_unverified_def)
next
  case (Step event)
  then show ?thesis
    using run_frame[OF surjective_pairing, of "Some event" s]
    by (simp add: step_def all_unverified_def)
next
  case (SetBreakPoint path ln)
  then show ?thesis using setBreakPoint_registry[of path ln s] by simp
next
  case (ClearBreakPoint path ln)
  then show ?thesis using clearBreakPoint_registry[of path ln s] by simp
next
  case (ClearBreakpoints path)
  then show ?thesis
    by (simp add: clearBreakpoints_def save_then_return_cases all_unverified_def
        list_all_Map_delete)
next
  case (VerifyBreakpoints path)
  then show ?thesis
    using verifyBreakpoints_unverified[of s path] by (simp add: verifyBreakpoints_snd_frame)
next
  case (StatusRecord info)
  then show ?thesis by (simp add: setCurrentLineInSource_def all_unverified_def)
next
  case (DocumentOpened info)
  then show ?thesis by (simp add: openTextDocument_then_def all_unverified_def)
next
  case (DocumentShown info)
  then show ?thesis
    using start_registry[of "info_file info" True s]
    by (auto simp: showTextDocument_then_def all_unverified_def split: prod.splits sum.splits)
next
  case (FileWritten path content)
  then show ?thesis by (simp add: all_unverified_def)
next
  case (EditorActivated editor)
  then show ?thesis by (simp add: all_unverified_def)
next
  case (FolderChanged writable)
  then show ?thesis by (simp add: all_unverified_def)
qed

lemma created_ids_above:
  "list_all (\<lambda>i. breakpointId s < i) (created_ids cs s) \<and> sorted_wrt (<) (created_ids cs s)"
proof (induction cs arbitrary: s)
  case Nil
  show ?case by simp
next
  case (Cons c cs)
  have mono: "breakpointId s \<le> breakpointId (perform c s)"
    using perform_registry[of s c] by simp
  have above: "list_all (\<lambda>i. breakpointId s < i) (created_ids cs (perform c s))"
    using Cons.IH[of "perform c s"] mono by (auto simp: list_all_iff)
  show ?case
  proof (cases c)
    case (SetBreakPoint path ln)
    have "breakpointId (perform c s) = breakpointId s + 1" "created_id path ln s = breakpointId s + 1"
      using setBreakPoint_registry[of path ln s] SetBreakPoint by simp_all
    with Cons.IH[of "perform c s"] SetBreakPoint show ?thesis
      by (auto simp: list_all_iff)
  qed (use Cons.IH[of "perform c s"] above in auto)
qed

text \<open>
  Claim C7. Over any sequence of calls, from any state, the ids of the breakpoints
  created by the successive \<open>setBreakPoint\<close> calls are strictly increasing (so none is
  used twice), and all lie above the counter the sequence started from, whatever was
  cleared in between.
\<close>

theorem breakpoint_ids_strictly_increasing:
  "sorted_wrt (<) (created_ids cs s) \<and> distinct (created_ids cs s) \<and>
   list_all (\<lambda>i. breakpointId s < i) (created_ids cs s)"
  using created_ids_above[of s cs] by (simp add: strict_sorted_iff)

text \<open>
  On the sample sequence the three \<open>setBreakPoint\<close> calls create the ids 2, 3 and 4; the
  second call throws and uses up the id 3 all the same.
\<close>

theorem breakpoint_ids_strictly_increasing_witness:
  "created_ids sample_calls fresh = [2, 3, 4] \<and>
   sorted_wrt (<) (created_ids sample_calls fresh) \<and>
   distinct (created_ids sample_calls fresh)"
proof -
  have "created_ids sample_calls fresh = [2, 3, 4]" by code_simp
  with breakpoint_ids_strictly_increasing[of sample_calls fresh] show ?thesis by simp
qed

lemma perform_all_unverified: "all_unverified s \<Longrightarrow> all_unverified (perform_all cs s)"
proof (induction cs arbitrary: s)
  case Nil
  then show ?case by simp
next
  case (Cons c cs)
  then show ?case using perform_registry[of s c] by simp
qed

text \<open>
  Claim C8. Every call keeps all breakpoints unverified, and a new runtime has none: so
  after every sequence of calls, every breakpoint of every file is unverified.
\<close>

theorem verified_stays_false:
  "all_unverified (perform_all cs (new_runtime fs editor writable)) \<and>
   (all_unverified s \<longrightarrow> all_unverified (perform_all cs s))"
  using perform_all_unverified[of "new_runtime fs editor writable" cs] perform_all_unverified[of s cs]
  by (simp add: all_unverified_def new_runtime_def)

lemma sample_registry_unverified: "all_unverified sample_registry"
  by code_simp

theorem verified_stays_false_witness:
  "all_unverified (perform_all sample_calls fresh) \<and>
   all_unverified (perform_all sample_calls sample_registry) \<and>
   map (map verified \<circ> snd) (breakPoints (perform_all sample_calls sample_registry)) =
     [[False, False, False, False], [False]]"
proof -
  have "map (map verified \<circ> snd) (breakPoints (perform_all sample_calls sample_registry)) =
     [[False, False, False, False], [False]]"
    by code_simp
  with verified_stays_false[of sample_calls sample_files "Some a_feature" True sample_registry]
    sample_registry_unverified
  show ?thesis by (simp add: fresh_def)
qed

section \<open>The breakpoints file\<close>



















section \<open>Settled normalization\<close>



















section \<open>The external status path\<close>

lemma setCurrentLineInSource_emitted: "emitted (setCurrentLineInSource info s) = emitted s"
  by (simp add: setCurrentLineInSource_def)

text \<open>
  Claim C6, as amended. On a change of the status file: when the file cannot be read
  or is empty, the listener returns and the state is unchanged; when \<open>JSON.parse\<close>
  rejects the content, the exception leaves the listener uncaught, the state unchanged;
  when \<open>JSON.parse\<close> accepts it, the record is handed to \<open>setCurrentLineInSource\<close>, and no
  event is scheduled.
\<close>

theorem status_file_change:
  "(statusFile s = None \<or> statusFile s = Some [] \<longrightarrow>
      watchFile_listener JSON_parse s = (Inr (), s)) \<and>
   (statusFile s = Some content \<and> content \<noteq> [] \<and> JSON_parse content = Inl e \<longrightarrow>
      watchFile_listener JSON_parse s = (Inl e, s)) \<and>
   (statusFile s = Some content \<and> content \<noteq> [] \<and> JSON_parse content = Inr info \<longrightarrow>
      watchFile_listener JSON_parse s = (Inr (), setCurrentLineInSource info s) \<and>
      emitted (snd (watchFile_listener JSON_parse s)) = emitted s)"
  by (auto simp: watchFile_listener_def readFile_callback_def setCurrentLineInSource_emitted)

theorem status_file_change_witness:
  "watchFile_listener sample_parse (fresh\<lparr>statusFile := Some []\<rparr>) =
     (Inr (), fresh\<lparr>statusFile := Some []\<rparr>) \<and>
   watchFile_listener sample_parse (fresh\<lparr>statusFile := Some (js ''{'')\<rparr>) =
     (Inl SyntaxError, fresh\<lparr>statusFile := Some (js ''{'')\<rparr>) \<and>
   watchFile_listener sample_parse
     (fresh\<lparr>statusFile := Some (js ''{\"file\":\"other.feature\",\"line\":7,\"status\":\"run\"}'')\<rparr>) =
     (Inr (), setCurrentLineInSource sample_info
        (fresh\<lparr>statusFile := Some (js ''{\"file\":\"other.feature\",\"line\":7,\"status\":\"run\"}'')\<rparr>))"
proof -
  let ?doc = "js ''{\"file\":\"other.feature\",\"line\":7,\"status\":\"run\"}''"
  have bad: "js ''{'' \<noteq> [] \<and> sample_parse (js ''{'') = Inl SyntaxError"
    by (simp add: sample_parse_def js_def)
  have good: "?doc \<noteq> [] \<and> sample_parse ?doc = Inr sample_info"
    by (simp add: sample_parse_def js_def)
  from status_file_change[of "fresh\<lparr>statusFile := Some []\<rparr>" sample_parse]
  have "watchFile_listener sample_parse (fresh\<lparr>statusFile := Some []\<rparr>) =
     (Inr (), fresh\<lparr>statusFile := Some []\<rparr>)"
    by simp
  moreover
  from status_file_change[of "fresh\<lparr>statusFile := Some (js ''{'')\<rparr>" sample_parse "js ''{''"
      SyntaxError] bad
  have "watchFile_listener sample_parse (fresh\<lparr>statusFile := Some (js ''{'')\<rparr>) =
     (Inl SyntaxError, fresh\<lparr>statusFile := Some (js ''{'')\<rparr>)"
    by simp
  moreover
  from status_file_change[of "fresh\<lparr>statusFile := Some ?doc\<rparr>" sample_parse ?doc _ sample_info]
    good
  have "watchFile_listener sample_parse (fresh\<lparr>statusFile := Some ?doc\<rparr>) =
     (Inr (), setCurrentLineInSource sample_info (fresh\<lparr>statusFile := Some ?doc\<rparr>))"
    by simp
  ultimately show ?thesis by simp
qed

text \<open>
  The claim as stated fails: when the status file holds \<open>{\<close>, which is not JSON, the
  listener does not return; the \<open>SyntaxError\<close> of \<open>JSON.parse\<close> leaves it.
\<close>

theorem malformed_status_counterexample:
  "sample_parse (js ''{'') = Inl SyntaxError \<and>
   fst (watchFile_listener sample_parse (fresh\<lparr>statusFile := Some (js ''{'')\<rparr>)) =
     Inl SyntaxError"
  by code_simp









section \<open>States a runtime can reach\<close>

text \<open>
  The hypotheses of the theorems above hold where they should. A new runtime can load
  every readable file and has no breakpoint; and no call ever leaves an empty array of
  source lines, since \<open>split\<close> returns at least one piece.
\<close>

lemma new_runtime_loadable:
  "loadable path (new_runtime fs editor writable) = (fs path \<noteq> None) \<and>
   lines_nonneg path (new_runtime fs editor writable) \<and>
   sourceLines (new_runtime fs editor writable) \<noteq> Some []"
  by (simp add: loadable_def lines_nonneg_def new_runtime_def)

lemma loadSource_lines:
  "sourceLines s \<noteq> Some [] \<Longrightarrow> sourceLines (snd (loadSource f s)) \<noteq> Some []"
  by (auto simp: loadSource_def Let_def split_on_nonempty split: option.splits)

lemma verifyBreakpoints_lines:
  "sourceLines s \<noteq> Some [] \<Longrightarrow> sourceLines (snd (verifyBreakpoints path s)) \<noteq> Some []"
  using loadSource_lines[of s path]
  by (auto simp: verifyBreakpoints_def split: option.splits prod.splits sum.splits)

lemma run_lines: "sourceLines (snd (run stepEvent s)) = sourceLines s"
proof (cases "\<exists>e. stepEvent = Some e \<and> e \<noteq> []")
  case True
  then show ?thesis
    by (auto simp: run_def run_loop_step sendEvent_def split: option.splits)
next
  case False
  from run_loop_no_stop[OF False] show ?thesis
    by (auto simp: run_def sendEvent_def split: option.splits)
qed

lemma start_lines:
  assumes "sourceLines s \<noteq> Some []"
  shows "sourceLines (snd (start f stopOnEntry s)) \<noteq> Some []"
proof (cases "loadSource f s")
  case (Pair r1 s1)
  from loadSource_lines[OF assms, of f] Pair have l1: "sourceLines s1 \<noteq> Some []" by simp
  show ?thesis
  proof (cases r1)
    case (Inl e)
    with Pair l1 show ?thesis by (simp add: start_failed_load)
  next
    case (Inr u)
    obtain r3 s3 where v3: "verifyBreakpoints f (s1\<lparr>currentLine := - 1\<rparr>) = (r3, s3)"
      by (cases "verifyBreakpoints f (s1\<lparr>currentLine := - 1\<rparr>)")
    from verifyBreakpoints_lines[of "s1\<lparr>currentLine := - 1\<rparr>" f] l1 v3
    have l3: "sourceLines s3 \<noteq> Some []" by simp
    from start_loaded[OF Pair[unfolded Inr] v3, of stopOnEntry] l3 show ?thesis
      by (cases r3) (simp_all add: step_def continue_def run_lines)
  qed
qed

lemma perform_lines:
  assumes "sourceLines s \<noteq> Some []"
  shows "sourceLines (perform c s) \<noteq> Some []"
proof (cases c)
  case (Start f stopOnEntry)
  with start_lines[OF assms] show ?thesis by simp
next
  case (SetBreakPoint path ln)
  have "sourceLines (snd (setBreakPoint path ln s)) \<noteq> Some []"
    using verifyBreakpoints_lines[of
        "s\<lparr>breakpointId := breakpointId s + 1,
           breakPoints := Map_set (breakPoints s) path
             ((case Map_get (breakPoints s) path of None \<Rightarrow> [] | Some a \<Rightarrow> a) @
              [\<lparr>id_bp = breakpointId s + 1, line = ln, verified = False\<rparr>])\<rparr>" path] assms
    by (auto simp: setBreakPoint_def Let_def save_then_return_cases
        split: prod.splits sum.splits)
  with SetBreakPoint show ?thesis by simp
next
  case (ClearBreakPoint path ln)
  with assms show ?thesis
    by (auto simp: clearBreakPoint_def Let_def save_then_return_cases split: option.splits)
next
  case (VerifyBreakpoints path)
  with verifyBreakpoints_lines[OF assms] show ?thesis by simp
next
  case (DocumentShown info)
  with start_lines[OF assms, of "info_file info" True] show ?thesis
    by (auto simp: showTextDocument_then_def split: prod.splits sum.splits)
qed (use assms in \<open>simp_all add: continue_def step_def run_lines clearBreakpoints_def
      save_then_return_cases setCurrentLineInSource_def openTextDocument_then_def\<close>)

lemma perform_all_lines:
  "sourceLines s \<noteq> Some [] \<Longrightarrow> sourceLines (perform_all cs s) \<noteq> Some []"
  by (induction cs arbitrary: s) (simp_all add: perform_lines)

lemma reachable_lines: "sourceLines (perform_all cs (new_runtime fs editor writable)) \<noteq> Some []"
  by (rule perform_all_lines) (simp add: new_runtime_def)

end
